theory Spec2Isabelle
  imports Main "HOL-Library.Word"
begin

section \<open>Values exchanged with the libraries\<close>

text \<open>
  \<^verbatim>\<open>droughtmapper.py\<close> is a class \<^verbatim>\<open>DroughtMapper\<close> whose methods call
  \<^verbatim>\<open>requests\<close>, \<^verbatim>\<open>xml.etree.ElementTree\<close>, \<^verbatim>\<open>datetime\<close>, \<^verbatim>\<open>os\<close> and \<^verbatim>\<open>os.path\<close>.
  The methods are embedded as functions on an explicit state; every exception that can
  leave a method is a value of \<open>error\<close>, named after the Python exception class.
  The specification's \<^verbatim>\<open>RemoteFetchError\<close> for a failure HTTP status is
  \<^verbatim>\<open>requests.exceptions.HTTPError\<close>, here \<open>HTTPError\<close>.
\<close>

datatype error =
    AttributeError
  | TypeError
  | ValueError
  | ParseError
  | ConnectionError
  | HTTPError
  | FileExistsError
  | FileNotFoundError
  | NotADirectoryError
  | IsADirectoryError

type_synonym bytes = "8 word list"

text \<open>
  A \<^verbatim>\<open>datetime.datetime\<close>. The code only builds one with \<^verbatim>\<open>strptime(_, '%Y%m%d')\<close>,
  which leaves the time of day at midnight, and only reads one with the directives
  \<^verbatim>\<open>%Y\<close>, \<^verbatim>\<open>%m\<close> and \<^verbatim>\<open>%d\<close>, so the record keeps the calendar fields.
\<close>

record datetime =
  year :: nat
  month :: nat
  day :: nat

definition is_leap :: "nat \<Rightarrow> bool" where
  "is_leap y = (y mod 4 = 0 \<and> (y mod 100 \<noteq> 0 \<or> y mod 400 = 0))"

definition days_in_month :: "nat \<Rightarrow> nat \<Rightarrow> nat" where
  "days_in_month y m =
     (if m = 2 then (if is_leap y then 29 else 28)
      else if m = 4 \<or> m = 6 \<or> m = 9 \<or> m = 11 then 30
      else 31)"

text \<open>The values the constructor of \<^verbatim>\<open>datetime\<close> accepts (\<^verbatim>\<open>MINYEAR = 1\<close>, \<^verbatim>\<open>MAXYEAR = 9999\<close>).\<close>

definition valid_datetime :: "datetime \<Rightarrow> bool" where
  "valid_datetime d =
     (1 \<le> year d \<and> year d \<le> 9999 \<and> 1 \<le> month d \<and> month d \<le> 12 \<and>
      1 \<le> day d \<and> day d \<le> days_in_month (year d) (month d))"

text \<open>A response of \<^verbatim>\<open>requests\<close>: the status, the raw body (\<^verbatim>\<open>content\<close>) and the decoded body (\<^verbatim>\<open>text\<close>, here \<open>text_body\<close>).\<close>

record response =
  status_code :: nat
  content :: bytes
  text_body :: string

text \<open>
  \<^verbatim>\<open>Response.raise_for_status\<close> raises \<^verbatim>\<open>HTTPError\<close> for a client error (4xx) or a
  server error (5xx), and returns \<^verbatim>\<open>None\<close> otherwise.
\<close>

definition raise_for_status :: "response \<Rightarrow> error + unit" where
  "raise_for_status r =
     (if 400 \<le> status_code r \<and> status_code r < 600 then Inl HTTPError else Inr ())"

text \<open>An element of \<^verbatim>\<open>ElementTree\<close>: tag, attributes, children in document order.\<close>

datatype element = Element (tag: string) (attrib: "(string \<times> string) list") (children: "element list")

text \<open>\<^verbatim>\<open>Element.find(tag)\<close>: the first direct child with that tag, or \<^verbatim>\<open>None\<close>.\<close>

definition find_element :: "element \<Rightarrow> string \<Rightarrow> element option" where
  "find_element e t = List.find (\<lambda>c. tag c = t) (children e)"

text \<open>\<^verbatim>\<open>Element.get(key)\<close>: the attribute's value, or \<^verbatim>\<open>None\<close>.\<close>

definition get_attrib :: "element \<Rightarrow> string \<Rightarrow> string option" where
  "get_attrib e k = map_of (attrib e) k"

section \<open>Dates as text\<close>

definition digit_char :: "nat \<Rightarrow> char" where
  "digit_char n = char_of (48 + n)"

definition digit_val :: "char \<Rightarrow> nat" where
  "digit_val c = of_char c - 48"

definition in_range :: "char \<Rightarrow> char \<Rightarrow> char \<Rightarrow> bool" where
  "in_range lo hi c = ((of_char lo :: nat) \<le> of_char c \<and> (of_char c :: nat) \<le> of_char hi)"

definition is_digit :: "char \<Rightarrow> bool" where
  "is_digit c = in_range (CHR ''0'') (CHR ''9'') c"

definition pad2 :: "nat \<Rightarrow> string" where
  "pad2 n = [digit_char (n div 10), digit_char (n mod 10)]"

definition pad4 :: "nat \<Rightarrow> string" where
  "pad4 n = pad2 (n div 100) @ pad2 (n mod 100)"

text \<open>The decimal numeral of a number, without padding.\<close>

fun str_nat :: "nat \<Rightarrow> string" where
  "str_nat n = (if n < 10 then [digit_char n] else str_nat (n div 10) @ [digit_char (n mod 10)])"

declare str_nat.simps [simp del]

text \<open>
  \<^verbatim>\<open>datetime.strftime(format)\<close> for formats whose directives are \<^verbatim>\<open>%Y\<close>, \<^verbatim>\<open>%m\<close> and
  \<^verbatim>\<open>%d\<close>: every other character is copied. Month and day are two digits. CPython passes
  \<^verbatim>\<open>%Y\<close> to the C library, and glibc writes the year as its decimal numeral without
  padding: four digits from the year 1000 on, fewer below (the year 14 gives \<^verbatim>\<open>14\<close>).
\<close>

fun strftime :: "datetime \<Rightarrow> string \<Rightarrow> string" where
  "strftime d [] = []"
| "strftime d [c] = [c]"
| "strftime d (c # e # r) =
     (if c = CHR ''%'' \<and> e = CHR ''Y'' then str_nat (year d) @ strftime d r
      else if c = CHR ''%'' \<and> e = CHR ''m'' then pad2 (month d) @ strftime d r
      else if c = CHR ''%'' \<and> e = CHR ''d'' then pad2 (day d) @ strftime d r
      else c # strftime d (e # r))"

text \<open>
  \<^verbatim>\<open>datetime.strptime(s, '%Y%m%d')\<close>. Python turns the format into the regular expression
  \<^verbatim>\<open>(?P<Y>\d\d\d\d)(?P<m>1[0-2]|0[1-9]|[1-9])(?P<d>3[0-1]|[1-2]\d|0[1-9]|[1-9]| [1-9])\<close>,
  matches it at the start of the text, and raises \<^verbatim>\<open>ValueError\<close> when it does not match,
  when text remains after the match, or when the three numbers are not a date.
  \<open>month_alts\<close> and \<open>day_alts\<close> list the ways a group can match, in the order the
  alternatives are tried, each with the text left over.
\<close>

definition month_alts :: "string \<Rightarrow> (nat \<times> string) list" where
  "month_alts s =
     (case s of
        a # b # r \<Rightarrow>
          (if a = CHR ''1'' \<and> in_range (CHR ''0'') (CHR ''2'') b then [(10 + digit_val b, r)] else []) @
          (if a = CHR ''0'' \<and> in_range (CHR ''1'') (CHR ''9'') b then [(digit_val b, r)] else [])
      | _ \<Rightarrow> []) @
     (case s of
        a # r \<Rightarrow> (if in_range (CHR ''1'') (CHR ''9'') a then [(digit_val a, r)] else [])
      | [] \<Rightarrow> [])"

definition day_alts :: "string \<Rightarrow> (nat \<times> string) list" where
  "day_alts s =
     (case s of
        a # b # r \<Rightarrow>
          (if a = CHR ''3'' \<and> in_range (CHR ''0'') (CHR ''1'') b then [(30 + digit_val b, r)] else []) @
          (if in_range (CHR ''1'') (CHR ''2'') a \<and> is_digit b then [(10 * digit_val a + digit_val b, r)] else []) @
          (if a = CHR ''0'' \<and> in_range (CHR ''1'') (CHR ''9'') b then [(digit_val b, r)] else [])
      | _ \<Rightarrow> []) @
     (case s of
        a # r \<Rightarrow> (if in_range (CHR ''1'') (CHR ''9'') a then [(digit_val a, r)] else [])
      | [] \<Rightarrow> []) @
     (case s of
        a # b # r \<Rightarrow>
          (if a = CHR '' '' \<and> in_range (CHR ''1'') (CHR ''9'') b then [(digit_val b, r)] else [])
      | _ \<Rightarrow> [])"

definition strptime_Ymd :: "string \<Rightarrow> error + datetime" where
  "strptime_Ymd s =
     (case s of
        y1 # y2 # y3 # y4 # s1 \<Rightarrow>
          if is_digit y1 \<and> is_digit y2 \<and> is_digit y3 \<and> is_digit y4 then
            (case concat (map (\<lambda>(m, s2). map (\<lambda>(d, s3). (m, d, s3)) (day_alts s2)) (month_alts s1)) of
               [] \<Rightarrow> Inl ValueError
             | (m, d, s3) # _ \<Rightarrow>
                 if s3 \<noteq> [] then Inl ValueError
                 else
                   let y = 1000 * digit_val y1 + 100 * digit_val y2 + 10 * digit_val y3 + digit_val y4
                   in if y < 1 \<or> days_in_month y m < d then Inl ValueError
                      else Inr \<lparr>year = y, month = m, day = d\<rparr>)
          else Inl ValueError
      | _ \<Rightarrow> Inl ValueError)"

section \<open>Paths\<close>

text \<open>\<^verbatim>\<open>posixpath.join(a, *p)\<close>: the loop over the later components is a fold.\<close>

definition join_step :: "string \<Rightarrow> string \<Rightarrow> string" where
  "join_step path b =
     (if b \<noteq> [] \<and> hd b = CHR ''/'' then b
      else if path = [] \<or> last path = CHR ''/'' then path @ b
      else path @ ''/'' @ b)"

definition os_path_join :: "string \<Rightarrow> string list \<Rightarrow> string" where
  "os_path_join a p = foldl join_step a p"

text \<open>
  \<^verbatim>\<open>posixpath.split(p)\<close> cuts after the last slash; the head loses its trailing slashes
  unless it consists of slashes only. \<^verbatim>\<open>basename\<close> is the tail, \<^verbatim>\<open>dirname\<close> the head.
\<close>

definition os_path_basename :: "string \<Rightarrow> string" where
  "os_path_basename p = rev (takeWhile (\<lambda>c. c \<noteq> CHR ''/'') (rev p))"

definition os_path_dirname :: "string \<Rightarrow> string" where
  "os_path_dirname p =
     (let head = rev (dropWhile (\<lambda>c. c \<noteq> CHR ''/'') (rev p))
      in if head \<noteq> [] \<and> (\<exists>c \<in> set head. c \<noteq> CHR ''/'')
         then rev (dropWhile (\<lambda>c. c = CHR ''/'') (rev head))
         else head)"

definition os_path_split :: "string \<Rightarrow> string \<times> string" where
  "os_path_split p = (os_path_dirname p, os_path_basename p)"

section \<open>The state the methods act on\<close>

text \<open>
  The filesystem as far as the code observes it: a name is absent, a regular file with its
  content, or a directory. Names are looked up as they are written, so the model is one of
  paths in normal form, as \<^verbatim>\<open>os.path.realpath\<close> returns them; the root directory is the
  entry \<^verbatim>\<open>/\<close>. Of the refusals of the operating system the model has those that depend
  on what exists: a name that is taken, a parent that is missing or is a regular file, a
  directory opened for writing. Permissions and a full disk are outside it.
\<close>

datatype node = File bytes | Dir

text \<open>
  The world outside the object: the filesystem, and the URLs requested so far with
  \<^verbatim>\<open>requests.get\<close>, oldest first, so that network calls can be counted.
\<close>

record world =
  fs :: "string \<rightharpoonup> node"
  requests :: "string list"

text \<open>
  The world together with the attributes of one \<^verbatim>\<open>DroughtMapper\<close>: \<^verbatim>\<open>self.cache\<close> and
  \<^verbatim>\<open>self._latest_date\<close> (\<open>None\<close> while the attribute has not been set).
\<close>

record state = world +
  cache :: string
  latest_date :: "datetime option"

definition os_path_exists :: "(string \<rightharpoonup> node) \<Rightarrow> string \<Rightarrow> bool" where
  "os_path_exists f p = (f p \<noteq> None)"

text \<open>
  \<^verbatim>\<open>os.mkdir(name)\<close>: raises \<^verbatim>\<open>FileExistsError\<close> when the name is taken,
  \<^verbatim>\<open>FileNotFoundError\<close> when its parent is missing and \<^verbatim>\<open>NotADirectoryError\<close> when the
  parent is a regular file; otherwise the directory is created.
\<close>

definition os_mkdir :: "(string \<rightharpoonup> node) \<Rightarrow> string \<Rightarrow> error + (string \<rightharpoonup> node)" where
  "os_mkdir f name =
     (if f name \<noteq> None then Inl FileExistsError
      else (case f (os_path_dirname name) of
              None \<Rightarrow> Inl FileNotFoundError
            | Some (File _) \<Rightarrow> Inl NotADirectoryError
            | Some Dir \<Rightarrow> Inr (f(name \<mapsto> Dir))))"

text \<open>
  \<^verbatim>\<open>os.makedirs(name)\<close>: splits the name (once more when it ends in a slash), creates the
  head first when it is missing, passing over a \<^verbatim>\<open>FileExistsError\<close> from there, then the
  directory itself; a tail \<^verbatim>\<open>.\<close> names the head again and is not created. The result is
  the exception that leaves the call, if any, and the filesystem as the call leaves it.
\<close>

function os_makedirs :: "(string \<rightharpoonup> node) \<Rightarrow> string \<Rightarrow> (error + unit) \<times> (string \<rightharpoonup> node)" where
  "os_makedirs f name =
     (let ht = (if snd (os_path_split name) = [] then os_path_split (fst (os_path_split name))
                else os_path_split name);
          head = fst ht;
          tail = snd ht
      in if head \<noteq> [] \<and> tail \<noteq> [] \<and> \<not> os_path_exists f head
         then (let made = os_makedirs f head
               in if fst made \<noteq> Inr () \<and> fst made \<noteq> Inl FileExistsError then made
                  else if tail = ''.'' then (Inr (), snd made)
                  else (case os_mkdir (snd made) name of
                          Inl e \<Rightarrow> (Inl e, snd made)
                        | Inr f2 \<Rightarrow> (Inr (), f2)))
         else (case os_mkdir f name of
                 Inl e \<Rightarrow> (Inl e, f)
               | Inr f2 \<Rightarrow> (Inr (), f2)))"
  by pat_completeness auto
termination
proof (relation "measure (\<lambda>(f, name). length name)")
  show "wf (measure (\<lambda>(f :: string \<rightharpoonup> node, name :: string). length name))"
    by simp
next
  fix f :: "string \<rightharpoonup> node" and name ht head tail
  assume ht: "ht = (if snd (os_path_split name) = [] then os_path_split (fst (os_path_split name))
                    else os_path_split name)"
    and head: "head = fst ht" and tail: "tail = snd ht"
    and c: "head \<noteq> [] \<and> tail \<noteq> [] \<and> \<not> os_path_exists f head"
  have le: "length (os_path_dirname p) + length (os_path_basename p) \<le> length p" for p
  proof -
    let ?h = "rev (dropWhile (\<lambda>c. c \<noteq> CHR ''/'') (rev p))"
    have "length ?h + length (os_path_basename p) = length p"
      unfolding os_path_basename_def
      by (metis add.commute length_append length_rev takeWhile_dropWhile_id)
    moreover have "length (os_path_dirname p) \<le> length ?h"
      unfolding os_path_dirname_def Let_def
      by (simp add: length_dropWhile_le le_trans [OF length_dropWhile_le])
    ultimately show ?thesis by linarith
  qed
  from c have pos: "0 < length tail" by simp
  have "length head < length name"
  proof (cases "snd (os_path_split name) = []")
    case True
    with ht head tail have h: "head = os_path_dirname (os_path_dirname name)"
      and t: "tail = os_path_basename (os_path_dirname name)"
      by (simp_all add: os_path_split_def)
    from pos have "0 < length (os_path_basename (os_path_dirname name))"
      unfolding t .
    then have "length (os_path_dirname (os_path_dirname name)) < length name"
      using le [of "os_path_dirname name"] le [of name] by linarith
    then show ?thesis unfolding h .
  next
    case False
    with ht head tail have h: "head = os_path_dirname name" and t: "tail = os_path_basename name"
      by (simp_all add: os_path_split_def)
    from pos have "0 < length (os_path_basename name)"
      unfolding t .
    then have "length (os_path_dirname name) < length name"
      using le [of name] by linarith
    then show ?thesis unfolding h .
  qed
  then show "((f, head), (f, name)) \<in> measure (\<lambda>(f, name). length name)"
    by simp
qed

text \<open>
  \<^verbatim>\<open>with open(path, 'wb') as f: f.write(data)\<close>: raises \<^verbatim>\<open>IsADirectoryError\<close> when the
  path is a directory, \<^verbatim>\<open>FileNotFoundError\<close> when its parent is missing and
  \<^verbatim>\<open>NotADirectoryError\<close> when the parent is a regular file; otherwise the file holds
  exactly the data.
\<close>

definition open_wb :: "(string \<rightharpoonup> node) \<Rightarrow> string \<Rightarrow> bytes \<Rightarrow> error + (string \<rightharpoonup> node)" where
  "open_wb f path data =
     (if f path = Some Dir then Inl IsADirectoryError
      else (case f (os_path_dirname path) of
              None \<Rightarrow> Inl FileNotFoundError
            | Some (File _) \<Rightarrow> Inl NotADirectoryError
            | Some Dir \<Rightarrow> Inr (f(path \<mapsto> File data))))"

text \<open>
  \<^verbatim>\<open>requests.get(url)\<close>. The remote side is a parameter \<open>net\<close>: for a URL it gives the
  response, or \<open>None\<close> when no response arrives and \<^verbatim>\<open>requests\<close> raises
  \<^verbatim>\<open>ConnectionError\<close>. Every call is recorded.
\<close>

definition requests_get ::
  "(string \<Rightarrow> response option) \<Rightarrow> string \<Rightarrow> 's state_scheme \<Rightarrow> (error + response) \<times> 's state_scheme" where
  "requests_get net url s =
     (case net url of
        None \<Rightarrow> (Inl ConnectionError, s\<lparr>requests := requests s @ [url]\<rparr>)
      | Some r \<Rightarrow> (Inr r, s\<lparr>requests := requests s @ [url]\<rparr>))"

section \<open>The methods of DroughtMapper\<close>

text \<open>
  \<^verbatim>\<open>__init__(self, cache='.cache')\<close>. The argument is \<open>None\<close> when the caller leaves it
  out. \<^verbatim>\<open>os.path.realpath\<close> depends on the working directory and on symbolic links; it
  is a parameter.
\<close>

definition init :: "(string \<Rightarrow> string) \<Rightarrow> string option \<Rightarrow> world \<Rightarrow> state" where
  "init realpath cache_arg w =
     \<lparr>fs = fs w, requests = requests w,
      cache = realpath (case cache_arg of None \<Rightarrow> ''.cache'' | Some c \<Rightarrow> c),
      latest_date = None\<rparr>"

text \<open>
  \<^verbatim>\<open>get_latest_date(self, ignore_cache=False)\<close>. \<^verbatim>\<open>ElementTree.fromstring\<close> is a
  parameter: it gives the root element, or \<open>None\<close> when it raises \<^verbatim>\<open>ParseError\<close>.
  \<^verbatim>\<open>week.get\<close> on \<^verbatim>\<open>None\<close> raises \<^verbatim>\<open>AttributeError\<close>, \<^verbatim>\<open>strptime\<close> of \<^verbatim>\<open>None\<close> raises
  \<^verbatim>\<open>TypeError\<close>.
\<close>

definition get_latest_date ::
  "(string \<Rightarrow> response option) \<Rightarrow> (string \<Rightarrow> element option) \<Rightarrow> bool \<Rightarrow> state \<Rightarrow> (error + datetime) \<times> state" where
  "get_latest_date net fromstring ignore_cache s =
     (if latest_date s \<noteq> None \<and> \<not> ignore_cache then (Inr (the (latest_date s)), s)
      else
        let url = ''http://droughtmonitor.unl.edu/tabular/total.xml''
        in case requests_get net url s of
             (Inl e, s1) \<Rightarrow> (Inl e, s1)
           | (Inr r, s1) \<Rightarrow>
               (case fromstring (text_body r) of
                  None \<Rightarrow> (Inl ParseError, s1)
                | Some xml \<Rightarrow>
                    (case find_element xml ''week'' of
                       None \<Rightarrow> (Inl AttributeError, s1)
                     | Some week \<Rightarrow>
                         (case get_attrib week ''date'' of
                            None \<Rightarrow> (Inl TypeError, s1)
                          | Some date \<Rightarrow>
                              (case strptime_Ymd date of
                                 Inl e \<Rightarrow> (Inl e, s1)
                               | Inr d \<Rightarrow> (Inr d, s1\<lparr>latest_date := Some d\<rparr>))))))"

text \<open>
  \<^verbatim>\<open>get_shapefile(self, date, ignore_cache=False)\<close>. The date is \<open>None\<close> when the caller
  passes Python's \<^verbatim>\<open>None\<close>, on which \<^verbatim>\<open>date.strftime\<close> raises \<^verbatim>\<open>AttributeError\<close>.
  An exception of \<^verbatim>\<open>os.makedirs\<close> or \<^verbatim>\<open>open\<close> leaves the method as it is.
\<close>

definition get_shapefile ::
  "(string \<Rightarrow> response option) \<Rightarrow> datetime option \<Rightarrow> bool \<Rightarrow> state \<Rightarrow> (error + string) \<times> state" where
  "get_shapefile net date ignore_cache s =
     (case date of
        None \<Rightarrow> (Inl AttributeError, s)
      | Some d \<Rightarrow>
          (let url = strftime d ''http://droughtmonitor.unl.edu/data/shapefiles_m/USDM_%Y%m%d_M.zip'';
               filename = os_path_basename url;
               path = os_path_join (cache s) [''zip'', filename];
               dirname = os_path_dirname path
           in if os_path_exists (fs s) path \<and> \<not> ignore_cache then (Inr path, s)
              else
                (case requests_get net url s of
                   (Inl e, s1) \<Rightarrow> (Inl e, s1)
                 | (Inr r, s1) \<Rightarrow>
                     (case raise_for_status r of
                        Inl e \<Rightarrow> (Inl e, s1)
                      | Inr _ \<Rightarrow>
                          (let made = (if \<not> os_path_exists (fs s1) dirname
                                       then os_makedirs (fs s1) dirname else (Inr (), fs s1));
                               s2 = s1\<lparr>fs := snd made\<rparr>
                           in (case fst made of
                                 Inl e \<Rightarrow> (Inl e, s2)
                               | Inr _ \<Rightarrow>
                                   (case open_wb (fs s2) path (content r) of
                                      Inl e \<Rightarrow> (Inl e, s2)
                                    | Inr f3 \<Rightarrow> (Inr path, s2\<lparr>fs := f3\<rparr>))))))))"

text \<open>
  \<^verbatim>\<open>get_us\<close> and \<^verbatim>\<open>project_shapefile\<close> have a docstring for a body: they do nothing and
  return \<^verbatim>\<open>None\<close>. \<^verbatim>\<open>raster\<close> calls \<^verbatim>\<open>get_us\<close> and returns \<^verbatim>\<open>None\<close>.
\<close>

definition get_us :: "state \<Rightarrow> unit \<times> state" where
  "get_us s = ((), s)"

definition project_shapefile :: "string \<Rightarrow> state \<Rightarrow> unit \<times> state" where
  "project_shapefile shapefile s = ((), s)"

definition raster :: "string \<Rightarrow> string option \<Rightarrow> state \<Rightarrow> unit \<times> state" where
  "raster shapefile outfile s = (let (us, s1) = get_us s in ((), s1))"

text \<open>
  \<^verbatim>\<open>render(self, date=None, outfile=None, **options)\<close>; the options reach \<^verbatim>\<open>raster\<close>,
  which does not read them.
\<close>

definition render ::
  "(string \<Rightarrow> response option) \<Rightarrow> datetime option \<Rightarrow> string option \<Rightarrow> state \<Rightarrow> (error + unit) \<times> state" where
  "render net date outfile s =
     (case get_shapefile net date False s of
        (Inl e, s1) \<Rightarrow> (Inl e, s1)
      | (Inr shapefile, s1) \<Rightarrow> (let (u, s2) = raster shapefile outfile s1 in (Inr u, s2)))"

declare os_makedirs.simps [simp del]

section \<open>Names for the values the methods compute\<close>

text \<open>
  The local variables \<^verbatim>\<open>url\<close> and \<^verbatim>\<open>path\<close> of \<^verbatim>\<open>get_shapefile\<close>, as functions of the date
  and of \<^verbatim>\<open>self.cache\<close>, and the URL \<^verbatim>\<open>get_latest_date\<close> requests.
\<close>

definition shapefile_url :: "datetime \<Rightarrow> string" where
  "shapefile_url d = strftime d ''http://droughtmonitor.unl.edu/data/shapefiles_m/USDM_%Y%m%d_M.zip''"

definition shapefile_path :: "string \<Rightarrow> datetime \<Rightarrow> string" where
  "shapefile_path c d = os_path_join c [''zip'', os_path_basename (shapefile_url d)]"

definition total_xml_url :: string where
  "total_xml_url = ''http://droughtmonitor.unl.edu/tabular/total.xml''"

text \<open>The eight digits of a date: year, month and day, padded with zeros.\<close>

definition ymd8 :: "datetime \<Rightarrow> string" where
  "ymd8 d = pad4 (year d) @ pad2 (month d) @ pad2 (day d)"

text \<open>
  What it means for a path to lie strictly under a root directory: the path is the root,
  a separator unless the root already ends in one (or is empty, the current directory, as
  \<^verbatim>\<open>os.path.join\<close> reads it), and a non-empty relative part none of whose components is
  empty, \<^verbatim>\<open>.\<close> or \<^verbatim>\<open>..\<close>.
\<close>

fun split_slash :: "string \<Rightarrow> string list" where
  "split_slash [] = [[]]"
| "split_slash (c # cs) =
     (if c = CHR ''/'' then [] # split_slash cs
      else (case split_slash cs of x # xs \<Rightarrow> (c # x) # xs | [] \<Rightarrow> [[c]]))"

definition as_directory :: "string \<Rightarrow> string" where
  "as_directory root = (if root = [] \<or> last root = CHR ''/'' then root else root @ ''/'')"

definition lies_under :: "string \<Rightarrow> string \<Rightarrow> bool" where
  "lies_under root p =
     (let r = as_directory root; rel = drop (length r) p
      in take (length r) p = r \<and> rel \<noteq> [] \<and>
         list_all (\<lambda>c. c \<noteq> [] \<and> c \<noteq> ''.'' \<and> c \<noteq> ''..'') (split_slash rel))"

text \<open>
  Absolute paths in normal form, by their components: \<^verbatim>\<open>/\<close> for none, and a slash before
  each component otherwise. A component is not empty, has no slash and is not \<^verbatim>\<open>.\<close> or
  \<^verbatim>\<open>..\<close>.
\<close>

definition valid_component :: "string \<Rightarrow> bool" where
  "valid_component c = (c \<noteq> [] \<and> CHR ''/'' \<notin> set c \<and> c \<noteq> ''.'' \<and> c \<noteq> ''..'')"

definition abs_path :: "string list \<Rightarrow> string" where
  "abs_path cs = (if cs = [] then ''/'' else concat (map (\<lambda>c. CHR ''/'' # c) cs))"

text \<open>
  A filesystem in which the directory with the components \<open>cs\<close> exists or can be created:
  the root is a directory, and neither the directory nor any of its ancestors is a regular
  file.
\<close>

definition is_file :: "node option \<Rightarrow> bool" where
  "is_file n = (case n of Some (File _) \<Rightarrow> True | _ \<Rightarrow> False)"

definition dirs_creatable :: "(string \<rightharpoonup> node) \<Rightarrow> string list \<Rightarrow> bool" where
  "dirs_creatable f cs =
     (f ''/'' = Some Dir \<and>
      list_all (\<lambda>k. \<not> is_file (f (abs_path (take k cs)))) [0..<Suc (length cs)])"

section \<open>A concrete scenario\<close>

text \<open>
  The week of 24 June 2014, the metadata document that lists it, a remote side that answers
  both endpoints with a given status, and a mapper whose cache root is
  \<^verbatim>\<open>/home/u/.cache\<close>, once with an empty filesystem and once with the archive already
  cached (as an empty file).
\<close>

definition example_date :: datetime where
  "example_date = \<lparr>year = 2014, month = 6, day = 24\<rparr>"

definition example_document :: string where
  "example_document = ''<root><week date='' @ [CHR 0x22] @ ''20140624'' @ [CHR 0x22] @ ''/></root>''"

definition example_fromstring :: "string \<Rightarrow> element option" where
  "example_fromstring t =
     (if t = example_document
      then Some (Element ''root'' [] [Element ''week'' [(''date'', ''20140624'')] []])
      else None)"

definition example_net :: "nat \<Rightarrow> string \<Rightarrow> response option" where
  "example_net status url =
     (if url = ''http://droughtmonitor.unl.edu/tabular/total.xml''
      then Some \<lparr>status_code = status, content = [], text_body = example_document\<rparr>
      else if url = ''http://droughtmonitor.unl.edu/data/shapefiles_m/USDM_20140624_M.zip''
      then Some \<lparr>status_code = status, content = [80, 75, 3, 4], text_body = []\<rparr>
      else None)"

definition example_dirs :: "string \<rightharpoonup> node" where
  "example_dirs = [''/'' \<mapsto> Dir, ''/home'' \<mapsto> Dir, ''/home/u'' \<mapsto> Dir]"

definition example_state :: state where
  "example_state =
     \<lparr>fs = example_dirs, requests = [], cache = ''/home/u/.cache'', latest_date = None\<rparr>"

definition example_cached :: state where
  "example_cached =
     \<lparr>fs = example_dirs(''/home/u/.cache'' \<mapsto> Dir, ''/home/u/.cache/zip'' \<mapsto> Dir,
        ''/home/u/.cache/zip/USDM_20140624_M.zip'' \<mapsto> File []),
      requests = [], cache = ''/home/u/.cache'', latest_date = None\<rparr>"


text \<open>A date of the year 14, which \<^verbatim>\<open>datetime\<close> can hold.\<close>

definition example_early_date :: datetime where
  "example_early_date = \<lparr>year = 14, month = 6, day = 24\<rparr>"

text \<open>
  A metadata document with a child before the weeks, two weeks, and a first week whose
  \<^verbatim>\<open>date\<close> is its second attribute; the element it parses to; a parser and a remote
  side for it.
\<close>

definition example_listing :: string where
  "example_listing =
     ''<root><title/><week name='' @ [CHR 0x22] @ ''w26'' @ [CHR 0x22] @ '' date='' @ [CHR 0x22] @
     ''20140624'' @ [CHR 0x22] @ ''/><week date='' @ [CHR 0x22] @ ''20140617'' @ [CHR 0x22] @
     ''/></root>''"

definition example_listing_root :: element where
  "example_listing_root =
     Element ''root'' []
       [Element ''title'' [] [],
        Element ''week'' [(''name'', ''w26''), (''date'', ''20140624'')] [],
        Element ''week'' [(''date'', ''20140617'')] []]"

definition example_listing_fromstring :: "string \<Rightarrow> element option" where
  "example_listing_fromstring t = (if t = example_listing then Some example_listing_root else None)"

definition example_listing_net :: "string \<Rightarrow> response option" where
  "example_listing_net url =
     (if url = ''http://droughtmonitor.unl.edu/tabular/total.xml''
      then Some \<lparr>status_code = 200, content = [], text_body = example_listing\<rparr>
      else None)"

section \<open>Digits and dates\<close>

lemma of_char_digit_char: "k < 10 \<Longrightarrow> (of_char (digit_char k) :: nat) = 48 + k"
  by (simp add: digit_char_def)

lemma digit_val_digit_char: "k < 10 \<Longrightarrow> digit_val (digit_char k) = k"
  by (simp add: digit_val_def of_char_digit_char)

lemma in_range_digit_char:
  "k < 10 \<Longrightarrow> in_range lo hi (digit_char k) = ((of_char lo :: nat) \<le> 48 + k \<and> 48 + k \<le> (of_char hi :: nat))"
  by (simp add: in_range_def of_char_digit_char)

lemma is_digit_digit_char: "k < 10 \<Longrightarrow> is_digit (digit_char k)"
  by (simp add: is_digit_def in_range_digit_char)

lemma digit_char_eq_iff: "k < 10 \<Longrightarrow> (digit_char k = c) = ((of_char c :: nat) = 48 + k)"
  by (metis of_char_digit_char of_char_eq_iff)

lemma digit_char_noslash: "k < 10 \<Longrightarrow> digit_char k \<noteq> CHR ''/''"
  by (simp add: digit_char_eq_iff)

lemma month_alts_pad2:
  assumes "1 \<le> m" "m \<le> 12"
  shows "\<exists>rest. month_alts (pad2 m @ s) = (m, s) # rest"
proof (cases "m < 10")
  case True
  then have "m div 10 = 0" "m mod 10 = m" by simp_all
  with assms True show ?thesis
    by (simp add: month_alts_def pad2_def digit_char_eq_iff in_range_digit_char digit_val_digit_char)
next
  case False
  have "m div 10 = 1" using assms False by linarith
  moreover have "10 * (m div 10) + m mod 10 = m" by simp
  ultimately have "m mod 10 = m - 10" by linarith
  moreover have "m div 10 = 1" using assms False by linarith
  moreover have "m - 10 < 10" "m - 10 \<le> 2" using assms by simp_all
  ultimately have "m div 10 = 1" "m mod 10 = m - 10" "m - 10 < 10" "m - 10 \<le> 2" by simp_all
  with assms False show ?thesis
    by (simp add: month_alts_def pad2_def digit_char_eq_iff in_range_digit_char digit_val_digit_char)
qed

lemma day_alts_pad2:
  assumes "1 \<le> d" "d \<le> 31"
  shows "\<exists>rest. day_alts (pad2 d @ s) = (d, s) # rest"
proof -
  have dm: "d div 10 < 10" "d mod 10 < 10" using assms by simp_all
  consider "d < 10" | "10 \<le> d" "d < 30" | "30 \<le> d" by linarith
  then show ?thesis
  proof cases
    case 1
    then have "d div 10 = 0" "d mod 10 = d" by simp_all
    with assms 1 show ?thesis
      by (simp add: day_alts_def pad2_def digit_char_eq_iff in_range_digit_char digit_val_digit_char is_digit_digit_char)
  next
    case 2
    then have q: "d div 10 = 1 \<or> d div 10 = 2" by linarith
    have e: "10 * (d div 10) + d mod 10 = d" by simp
    from q show ?thesis
    proof
      assume "d div 10 = 1"
      with e dm show ?thesis
        by (simp add: day_alts_def pad2_def digit_char_eq_iff in_range_digit_char digit_val_digit_char is_digit_digit_char)
    next
      assume "d div 10 = 2"
      with e dm show ?thesis
        by (simp add: day_alts_def pad2_def digit_char_eq_iff in_range_digit_char digit_val_digit_char is_digit_digit_char)
    qed
  next
    case 3
    have "d div 10 = 3" using assms 3 by linarith
    moreover have "10 * (d div 10) + d mod 10 = d" by simp
    ultimately have "d mod 10 = d - 30" by linarith
    moreover have "d div 10 = 3" using assms 3 by linarith
    moreover have "d - 30 \<le> 1" using assms by simp
    ultimately have "d div 10 = 3" "d mod 10 = d - 30" "d - 30 \<le> 1" by simp_all
    with assms 3 show ?thesis
      by (simp add: day_alts_def pad2_def digit_char_eq_iff in_range_digit_char digit_val_digit_char is_digit_digit_char)
  qed
qed

lemma days_in_month_le: "days_in_month y m \<le> 31"
  by (simp add: days_in_month_def)

lemma year_digits:
  fixes y :: nat
  shows "1000 * (y div 100 div 10) + 100 * (y div 100 mod 10) + 10 * (y mod 100 div 10) + y mod 100 mod 10 = y"
proof -
  have "y = 100 * (y div 100) + y mod 100" by simp
  moreover have "y div 100 = 10 * (y div 100 div 10) + y div 100 mod 10" by simp
  moreover have "y mod 100 = 10 * (y mod 100 div 10) + y mod 100 mod 10" by simp
  ultimately show ?thesis by linarith
qed

lemma strptime_ymd8:
  assumes "valid_datetime d"
  shows "strptime_Ymd (ymd8 d) = Inr d"
proof -
  let ?y = "year d"
  from assms have y: "1 \<le> ?y" "?y \<le> 9999" and m: "1 \<le> month d" "month d \<le> 12"
    and dd: "1 \<le> day d" "day d \<le> days_in_month ?y (month d)"
    by (simp_all add: valid_datetime_def)
  from dd days_in_month_le [of ?y "month d"] have d31: "day d \<le> 31" by linarith
  obtain r1 where r1: "month_alts (pad2 (month d) @ pad2 (day d)) = (month d, pad2 (day d)) # r1"
    using month_alts_pad2 [OF m] by blast
  obtain r2 where r2: "day_alts (pad2 (day d)) = (day d, []) # r2"
    using day_alts_pad2 [OF dd(1) d31, of "[]"] by auto
  define y1 y2 y3 y4 where "y1 = ?y div 100 div 10" and "y2 = ?y div 100 mod 10"
    and "y3 = ?y mod 100 div 10" and "y4 = ?y mod 100 mod 10"
  have digs: "y1 < 10" "y2 < 10" "y3 < 10" "y4 < 10"
    using y by (simp_all add: y1_def y2_def y3_def y4_def)
  have val: "1000 * y1 + 100 * y2 + 10 * y3 + y4 = ?y"
    unfolding y1_def y2_def y3_def y4_def by (rule year_digits)
  have s: "ymd8 d = digit_char y1 # digit_char y2 # digit_char y3 # digit_char y4 # (pad2 (month d) @ pad2 (day d))"
    by (simp add: ymd8_def pad4_def pad2_def y1_def y2_def y3_def y4_def)
  have "strptime_Ymd (digit_char y1 # digit_char y2 # digit_char y3 # digit_char y4 # (pad2 (month d) @ pad2 (day d)))
      = Inr \<lparr>year = ?y, month = month d, day = day d\<rparr>"
    using y dd
    by (simp add: strptime_Ymd_def is_digit_digit_char digs digit_val_digit_char r1 r2 val)
  then show ?thesis by (simp add: s)
qed

lemma str_nat_digit: "n < 10 \<Longrightarrow> str_nat n = [digit_char n]"
  by (simp add: str_nat.simps [of n])

lemma str_nat_more: "10 \<le> n \<Longrightarrow> str_nat n = str_nat (n div 10) @ [digit_char (n mod 10)]"
  by (simp add: str_nat.simps [of n])

lemma str_nat_four_digits:
  assumes "1000 \<le> y" "y \<le> 9999"
  shows "str_nat y = pad4 y"
proof -
  have e1: "y div 10 div 10 = y div 100"
    by (simp add: div_mult2_eq [symmetric])
  have e2: "y mod 100 = 10 * (y div 10 mod 10) + y mod 10"
    using mod_mult2_eq [of y 10 10] by simp
  have lt: "y mod 10 < 10" by simp
  have e3: "y mod 100 div 10 = y div 10 mod 10"
    unfolding e2 using lt by simp
  have e4: "y mod 100 mod 10 = y mod 10"
    unfolding e2 by simp
  have b: "10 \<le> y" "10 \<le> y div 10" "10 \<le> y div 100" "y div 100 div 10 < 10"
    using assms by simp_all
  have "str_nat y = str_nat (y div 10) @ [digit_char (y mod 10)]"
    using b(1) by (rule str_nat_more)
  also have "str_nat (y div 10) = str_nat (y div 100) @ [digit_char (y div 10 mod 10)]"
    using str_nat_more [OF b(2)] by (simp add: e1)
  also have "str_nat (y div 100) = str_nat (y div 100 div 10) @ [digit_char (y div 100 mod 10)]"
    using b(3) by (rule str_nat_more)
  also have "str_nat (y div 100 div 10) = [digit_char (y div 100 div 10)]"
    using b(4) by (rule str_nat_digit)
  finally show ?thesis
    by (simp add: pad4_def pad2_def e3 e4)
qed

lemma str_nat_14: "str_nat 14 = ''14''"
proof -
  have "str_nat 14 = str_nat (14 div 10) @ [digit_char (14 mod 10)]"
    by (rule str_nat_more) simp
  also have "(14::nat) div 10 = 1" by simp
  also have "str_nat 1 = [digit_char 1]" by (rule str_nat_digit) simp
  finally show ?thesis
    by (simp add: digit_char_def char_of_eq_iff)
qed

section \<open>The URL and the cache path\<close>

lemma shapefile_url_eq:
  "shapefile_url d =
     ''http://droughtmonitor.unl.edu/data/shapefiles_m/USDM_'' @ str_nat (year d) @
     pad2 (month d) @ pad2 (day d) @ ''_M.zip''"
  by (simp add: shapefile_url_def)

lemma shapefile_url_four_digits:
  "1000 \<le> year d \<Longrightarrow> year d \<le> 9999 \<Longrightarrow>
   shapefile_url d = ''http://droughtmonitor.unl.edu/data/shapefiles_m/USDM_'' @ ymd8 d @ ''_M.zip''"
  by (simp add: shapefile_url_eq str_nat_four_digits ymd8_def)

lemma basename_append_noslash:
  "CHR ''/'' \<notin> set t \<Longrightarrow> os_path_basename (a @ CHR ''/'' # t) = t"
  by (simp add: os_path_basename_def takeWhile_tail takeWhile_append)

lemma basename_append_tail:
  "CHR ''/'' \<notin> set t \<Longrightarrow> os_path_basename (a @ t) = os_path_basename a @ t"
  by (simp add: os_path_basename_def takeWhile_append)

lemma basename_noslash: "CHR ''/'' \<notin> set (os_path_basename p)"
  unfolding os_path_basename_def set_rev using set_takeWhileD by fastforce

lemma ymd8_noslash: "valid_datetime d \<Longrightarrow> CHR ''/'' \<notin> set (ymd8 d)"
proof -
  assume v: "valid_datetime d"
  then have "year d \<le> 9999" "month d \<le> 12" "day d \<le> 31"
    using days_in_month_le [of "year d" "month d"] by (auto simp add: valid_datetime_def)
  then have "year d div 100 div 10 < 10" "month d div 10 < 10" "day d div 10 < 10" by simp_all
  then show ?thesis
    by (simp add: ymd8_def pad4_def pad2_def digit_char_noslash [symmetric] digit_char_noslash)
qed

lemma basename_shapefile_url:
  assumes "valid_datetime d" and "1000 \<le> year d"
  shows "os_path_basename (shapefile_url d) = ''USDM_'' @ ymd8 d @ ''_M.zip''"
proof -
  from assms(1) have "year d \<le> 9999" by (simp add: valid_datetime_def)
  with assms(2) have "shapefile_url d =
      ''http://droughtmonitor.unl.edu/data/shapefiles_m'' @ CHR ''/'' # (''USDM_'' @ ymd8 d @ ''_M.zip'')"
    by (simp add: shapefile_url_four_digits)
  moreover have "CHR ''/'' \<notin> set (''USDM_'' @ ymd8 d @ ''_M.zip'')"
    using ymd8_noslash [OF assms(1)] by simp
  ultimately show ?thesis
    using basename_append_noslash [of "''USDM_'' @ ymd8 d @ ''_M.zip''" "''http://droughtmonitor.unl.edu/data/shapefiles_m''"]
    by simp
qed

lemma basename_shapefile_url_tail:
  "\<exists>a. os_path_basename (shapefile_url d) = a @ ''_M.zip''"
proof -
  let ?front = "''http://droughtmonitor.unl.edu/data/shapefiles_m/USDM_'' @ str_nat (year d) @
     pad2 (month d) @ pad2 (day d)"
  have "shapefile_url d = ?front @ ''_M.zip''"
    by (simp add: shapefile_url_eq)
  moreover have "os_path_basename (?front @ ''_M.zip'') = os_path_basename ?front @ ''_M.zip''"
    by (rule basename_append_tail) simp
  ultimately show ?thesis by metis
qed

lemma shapefile_path_eq:
  "shapefile_path c d = as_directory c @ ''zip/'' @ os_path_basename (shapefile_url d)"
proof -
  obtain a where a: "os_path_basename (shapefile_url d) = a @ ''_M.zip''"
    using basename_shapefile_url_tail by blast
  have "CHR ''/'' \<notin> set a" using basename_noslash [of "shapefile_url d"] a by simp
  then have "hd (a @ ''_M.zip'') \<noteq> CHR ''/''" by (cases a) auto
  then show ?thesis
    by (simp add: shapefile_path_def os_path_join_def join_step_def as_directory_def a)
qed

lemma split_slash_noslash: "CHR ''/'' \<notin> set x \<Longrightarrow> split_slash x = [x]"
  by (induction x) auto

lemma split_slash_append: "CHR ''/'' \<notin> set x \<Longrightarrow> split_slash (x @ CHR ''/'' # y) = x # split_slash y"
  by (induction x) auto

lemma shapefile_path_under: "lies_under c (shapefile_path c d)"
proof -
  obtain a where a: "os_path_basename (shapefile_url d) = a @ ''_M.zip''"
    using basename_shapefile_url_tail by blast
  define b where "b = a @ ''_M.zip''"
  have ns: "CHR ''/'' \<notin> set b" using basename_noslash [of "shapefile_url d"] a b_def by simp
  have "split_slash (''zip'' @ CHR ''/'' # b) = ''zip'' # split_slash b"
    by (rule split_slash_append) simp
  also have "\<dots> = [''zip'', b]" using split_slash_noslash [OF ns] by simp
  finally have sp: "split_slash (''zip/'' @ b) = [''zip'', b]" by simp
  have ne: "b \<noteq> ''.''" "b \<noteq> ''..''" "b \<noteq> []"
    unfolding b_def by (cases a; cases "tl a"; simp)+
  have p: "shapefile_path c d = as_directory c @ (''zip/'' @ b)"
    unfolding shapefile_path_eq a b_def by simp
  have "list_all (\<lambda>c. c \<noteq> [] \<and> c \<noteq> ''.'' \<and> c \<noteq> ''..'') (split_slash (''zip/'' @ b))"
    unfolding sp using ne by simp
  then show ?thesis
    unfolding lies_under_def Let_def p by simp
qed

lemma basename_shapefile_url_component: "valid_component (os_path_basename (shapefile_url d))"
proof -
  obtain a where a: "os_path_basename (shapefile_url d) = a @ ''_M.zip''"
    using basename_shapefile_url_tail by blast
  have "a @ ''_M.zip'' \<noteq> ''.''" "a @ ''_M.zip'' \<noteq> ''..''" "a @ ''_M.zip'' \<noteq> []"
    by (cases a; cases "tl a"; simp)+
  then show ?thesis
    using basename_noslash [of "shapefile_url d"] by (simp add: valid_component_def a)
qed

lemma abs_path_snoc:
  "abs_path (cs @ [c]) = (if cs = [] then [] else abs_path cs) @ CHR ''/'' # c"
  by (simp add: abs_path_def)

lemma abs_path_last:
  assumes "list_all valid_component cs" and "cs \<noteq> []"
  shows "abs_path cs \<noteq> [] \<and> last (abs_path cs) \<noteq> CHR ''/''"
proof -
  from assms(2) obtain bs c where cs: "cs = bs @ [c]" by (metis rev_exhaust)
  with assms(1) have c: "c \<noteq> []" "CHR ''/'' \<notin> set c"
    by (simp_all add: valid_component_def)
  then have "last c \<noteq> CHR ''/''" using last_in_set by metis
  with c show ?thesis
    unfolding cs abs_path_snoc by simp
qed

lemma abs_path_split:
  assumes "list_all valid_component cs" and "valid_component c"
  shows "os_path_dirname (abs_path (cs @ [c])) = abs_path cs"
    and "os_path_basename (abs_path (cs @ [c])) = c"
proof -
  let ?b = "if cs = [] then [] else abs_path cs"
  from assms(2) have c: "CHR ''/'' \<notin> set c" by (simp add: valid_component_def)
  show "os_path_basename (abs_path (cs @ [c])) = c"
    unfolding abs_path_snoc using c by (rule basename_append_noslash)
  have drop: "dropWhile (\<lambda>x. x \<noteq> CHR ''/'') (rev c @ CHR ''/'' # ys) = CHR ''/'' # ys" for ys
    using c by (auto simp add: dropWhile_append)
  have head: "rev (dropWhile (\<lambda>x. x \<noteq> CHR ''/'') (rev (?b @ CHR ''/'' # c))) = ?b @ ''/''"
    using drop [of "rev ?b"] by simp
  show "os_path_dirname (abs_path (cs @ [c])) = abs_path cs"
  proof (cases "cs = []")
    case True
    then show ?thesis
      unfolding abs_path_snoc os_path_dirname_def head by (simp add: abs_path_def)
  next
    case False
    with abs_path_last [OF assms(1)] have l: "abs_path cs \<noteq> []" "last (abs_path cs) \<noteq> CHR ''/''"
      by simp_all
    then have "hd (rev (abs_path cs)) \<noteq> CHR ''/''" by (simp add: hd_rev)
    with l have "dropWhile (\<lambda>x. x = CHR ''/'') (rev (abs_path cs)) = rev (abs_path cs)"
      by (cases "rev (abs_path cs)") simp_all
    moreover have "\<exists>x\<in>set (abs_path cs). x \<noteq> CHR ''/''"
      using l last_in_set by blast
    ultimately show ?thesis
      unfolding abs_path_snoc os_path_dirname_def head using False by simp
  qed
qed

lemma abs_path_longer: "c \<noteq> [] \<Longrightarrow> length (abs_path cs) < length (abs_path (cs @ [c]))"
  by (cases "cs = []") (simp_all add: abs_path_def)

lemma abs_path_as_directory:
  assumes "list_all valid_component cs"
  shows "as_directory (abs_path cs) @ c = abs_path (cs @ [c])"
proof (cases "cs = []")
  case True
  then show ?thesis by (simp add: abs_path_def as_directory_def)
next
  case False
  with abs_path_last [OF assms] show ?thesis
    by (simp add: as_directory_def abs_path_snoc)
qed

lemma shapefile_path_components:
  assumes "list_all valid_component cs"
  shows "shapefile_path (abs_path cs) d = abs_path ((cs @ [''zip'']) @ [os_path_basename (shapefile_url d)])"
proof -
  have "shapefile_path (abs_path cs) d =
      (as_directory (abs_path cs) @ ''zip'') @ CHR ''/'' # os_path_basename (shapefile_url d)"
    by (simp add: shapefile_path_eq)
  also have "as_directory (abs_path cs) @ ''zip'' = abs_path (cs @ [''zip''])"
    by (rule abs_path_as_directory [OF assms])
  also have "abs_path (cs @ [''zip'']) @ CHR ''/'' # os_path_basename (shapefile_url d) =
      abs_path ((cs @ [''zip'']) @ [os_path_basename (shapefile_url d)])"
    unfolding abs_path_snoc [of "cs @ [''zip'']"] by simp
  finally show ?thesis .
qed

lemma shapefile_dirname_components:
  assumes "list_all valid_component cs"
  shows "os_path_dirname (shapefile_path (abs_path cs) d) = abs_path (cs @ [''zip''])"
proof -
  have "list_all valid_component (cs @ [''zip''])"
    using assms by (simp add: valid_component_def)
  then show ?thesis
    unfolding shapefile_path_components [OF assms]
    using basename_shapefile_url_component by (rule abs_path_split(1))
qed

section \<open>Creating the cache directory\<close>

lemma abs_path_not_empty: "abs_path cs \<noteq> []"
  by (cases cs) (simp_all add: abs_path_def)

lemma dirs_creatable_root: "dirs_creatable f cs \<Longrightarrow> f ''/'' = Some Dir"
  by (simp add: dirs_creatable_def)

lemma dirs_creatable_at:
  "dirs_creatable f cs \<Longrightarrow> k \<le> length cs \<Longrightarrow> \<not> is_file (f (abs_path (take k cs)))"
  unfolding dirs_creatable_def list_all_iff set_upt by (simp del: upt_Suc)

lemma dirs_creatable_self: "dirs_creatable f cs \<Longrightarrow> \<not> is_file (f (abs_path cs))"
  using dirs_creatable_at [of f cs "length cs"] by simp

lemma dirs_creatable_prefix: "dirs_creatable f (cs @ [c]) \<Longrightarrow> dirs_creatable f cs"
proof -
  assume a: "dirs_creatable f (cs @ [c])"
  have "\<not> is_file (f (abs_path (take k cs)))" if "k \<le> length cs" for k
    using dirs_creatable_at [OF a, of k] that by simp
  then show ?thesis
    using dirs_creatable_root [OF a]
    unfolding dirs_creatable_def list_all_iff set_upt by (simp del: upt_Suc)
qed

lemma not_file_directory: "\<not> is_file n \<Longrightarrow> n \<noteq> None \<Longrightarrow> n = Some Dir"
  by (cases n) (auto simp add: is_file_def split: node.splits)

lemma os_mkdir_creates:
  "f name = None \<Longrightarrow> f (os_path_dirname name) = Some Dir \<Longrightarrow> os_mkdir f name = Inr (f(name \<mapsto> Dir))"
  by (simp add: os_mkdir_def)

lemma open_wb_writes:
  "f path = None \<Longrightarrow> f (os_path_dirname path) = Some Dir \<Longrightarrow>
   open_wb f path data = Inr (f(path \<mapsto> File data))"
  by (simp add: open_wb_def)

lemma os_makedirs_creates:
  assumes "list_all valid_component cs" and "dirs_creatable f cs" and "f (abs_path cs) = None"
  shows "\<exists>f'. os_makedirs f (abs_path cs) = (Inr (), f') \<and> f' (abs_path cs) = Some Dir \<and>
           (\<forall>q. length (abs_path cs) < length q \<longrightarrow> f' q = f q)"
  using assms
proof (induction cs rule: rev_induct)
  case Nil
  then show ?case
    using dirs_creatable_root [of f "[]"] by (simp add: abs_path_def)
next
  case (snoc c cs)
  let ?name = "abs_path (cs @ [c])" and ?head = "abs_path cs"
  from snoc.prems(1) have vcs: "list_all valid_component cs" and vc: "valid_component c"
    by simp_all
  from vc have c: "c \<noteq> []" "c \<noteq> ''.''" by (simp_all add: valid_component_def)
  have dn: "os_path_dirname ?name = ?head" and bn: "os_path_basename ?name = c"
    using abs_path_split [OF vcs vc] by simp_all
  have longer: "length ?head < length ?name"
    using c(1) by (rule abs_path_longer)
  have dc: "dirs_creatable f cs"
    using snoc.prems(2) by (rule dirs_creatable_prefix)
  have unfold: "os_makedirs f ?name =
      (if \<not> os_path_exists f ?head
       then (let made = os_makedirs f ?head
             in if fst made \<noteq> Inr () \<and> fst made \<noteq> Inl FileExistsError then made
                else (case os_mkdir (snd made) ?name of
                        Inl e \<Rightarrow> (Inl e, snd made)
                      | Inr f2 \<Rightarrow> (Inr (), f2)))
       else (case os_mkdir f ?name of
               Inl e \<Rightarrow> (Inl e, f)
             | Inr f2 \<Rightarrow> (Inr (), f2)))"
    using c by (subst os_makedirs.simps) (simp add: os_path_split_def dn bn abs_path_not_empty Let_def)
  show ?case
  proof (cases "f ?head = None")
    case True
    from snoc.IH [OF vcs dc True] obtain f1 where
      f1: "os_makedirs f ?head = (Inr (), f1)" "f1 ?head = Some Dir"
        "\<forall>q. length ?head < length q \<longrightarrow> f1 q = f q"
      by blast
    from f1(3) longer snoc.prems(3) have "f1 ?name = None" by simp
    then have mk: "os_mkdir f1 ?name = Inr (f1(?name \<mapsto> Dir))"
      using f1(2) by (simp add: os_mkdir_creates dn)
    have "os_makedirs f ?name = (Inr (), f1(?name \<mapsto> Dir))"
      using True by (simp add: unfold os_path_exists_def f1(1) mk)
    moreover have "\<forall>q. length ?name < length q \<longrightarrow> (f1(?name \<mapsto> Dir)) q = f q"
      using f1(3) longer by auto
    ultimately show ?thesis by simp
  next
    case False
    with dirs_creatable_self [OF dc] have "f ?head = Some Dir"
      by (simp add: not_file_directory)
    then have mk: "os_mkdir f ?name = Inr (f(?name \<mapsto> Dir))"
      using snoc.prems(3) by (simp add: os_mkdir_creates dn)
    have "os_makedirs f ?name = (Inr (), f(?name \<mapsto> Dir))"
      using False by (simp add: unfold os_path_exists_def mk)
    then show ?thesis by auto
  qed
qed

section \<open>The branches of the methods\<close>

lemma get_shapefile_none: "get_shapefile net None ignore_cache s = (Inl AttributeError, s)"
  by (simp add: get_shapefile_def)

lemma get_shapefile_hit:
  "fs s (shapefile_path (cache s) d) \<noteq> None \<Longrightarrow>
   get_shapefile net (Some d) False s = (Inr (shapefile_path (cache s) d), s)"
  by (simp add: get_shapefile_def Let_def os_path_exists_def shapefile_path_def shapefile_url_def)

lemma get_shapefile_miss:
  "fs s (shapefile_path (cache s) d) = None \<or> ignore_cache \<Longrightarrow>
   get_shapefile net (Some d) ignore_cache s =
     (case net (shapefile_url d) of
        None \<Rightarrow> (Inl ConnectionError, s\<lparr>requests := requests s @ [shapefile_url d]\<rparr>)
      | Some r \<Rightarrow>
          if 400 \<le> status_code r \<and> status_code r < 600
          then (Inl HTTPError, s\<lparr>requests := requests s @ [shapefile_url d]\<rparr>)
          else
            (let made = (if os_path_exists (fs s) (os_path_dirname (shapefile_path (cache s) d))
                         then (Inr (), fs s)
                         else os_makedirs (fs s) (os_path_dirname (shapefile_path (cache s) d)))
             in case fst made of
                  Inl e \<Rightarrow> (Inl e, s\<lparr>requests := requests s @ [shapefile_url d], fs := snd made\<rparr>)
                | Inr u \<Rightarrow>
                    (case open_wb (snd made) (shapefile_path (cache s) d) (content r) of
                       Inl e \<Rightarrow>
                         (Inl e, s\<lparr>requests := requests s @ [shapefile_url d], fs := snd made\<rparr>)
                     | Inr f3 \<Rightarrow>
                         (Inr (shapefile_path (cache s) d),
                          s\<lparr>requests := requests s @ [shapefile_url d], fs := f3\<rparr>))))"
  by (auto simp add: get_shapefile_def Let_def os_path_exists_def shapefile_path_def shapefile_url_def
      requests_get_def raise_for_status_def split: option.splits sum.splits)

lemma get_shapefile_cases:
  "get_shapefile net (Some d) ignore_cache s = (Inr (shapefile_path (cache s) d), s) \<or>
   get_shapefile net (Some d) ignore_cache s =
     (case net (shapefile_url d) of
        None \<Rightarrow> (Inl ConnectionError, s\<lparr>requests := requests s @ [shapefile_url d]\<rparr>)
      | Some r \<Rightarrow>
          if 400 \<le> status_code r \<and> status_code r < 600
          then (Inl HTTPError, s\<lparr>requests := requests s @ [shapefile_url d]\<rparr>)
          else
            (let made = (if os_path_exists (fs s) (os_path_dirname (shapefile_path (cache s) d))
                         then (Inr (), fs s)
                         else os_makedirs (fs s) (os_path_dirname (shapefile_path (cache s) d)))
             in case fst made of
                  Inl e \<Rightarrow> (Inl e, s\<lparr>requests := requests s @ [shapefile_url d], fs := snd made\<rparr>)
                | Inr u \<Rightarrow>
                    (case open_wb (snd made) (shapefile_path (cache s) d) (content r) of
                       Inl e \<Rightarrow>
                         (Inl e, s\<lparr>requests := requests s @ [shapefile_url d], fs := snd made\<rparr>)
                     | Inr f3 \<Rightarrow>
                         (Inr (shapefile_path (cache s) d),
                          s\<lparr>requests := requests s @ [shapefile_url d], fs := f3\<rparr>))))"
proof (cases "fs s (shapefile_path (cache s) d) = None \<or> ignore_cache")
  case True
  then show ?thesis by (simp only: get_shapefile_miss simp_thms)
next
  case False
  then show ?thesis using get_shapefile_hit [of s d net] by simp
qed

lemma get_shapefile_self:
  "cache (snd (get_shapefile net date ignore_cache s)) = cache s \<and>
   latest_date (snd (get_shapefile net date ignore_cache s)) = latest_date s"
proof (cases date)
  case None
  then show ?thesis by (simp add: get_shapefile_none)
next
  case (Some d)
  show ?thesis
    using get_shapefile_cases [of net d ignore_cache s] unfolding Some
    by (auto simp add: Let_def split: option.splits if_splits sum.splits)
qed

lemma get_shapefile_returns:
  "fst (get_shapefile net date ignore_cache s) = Inr p \<Longrightarrow>
   \<exists>d. date = Some d \<and> p = shapefile_path (cache s) d"
proof (cases date)
  case None
  assume "fst (get_shapefile net date ignore_cache s) = Inr p"
  with None show ?thesis by (simp add: get_shapefile_none)
next
  case (Some d)
  assume "fst (get_shapefile net date ignore_cache s) = Inr p"
  then show ?thesis
    using get_shapefile_cases [of net d ignore_cache s] unfolding Some
    by (auto simp add: Let_def split: option.splits if_splits sum.splits)
qed

lemma get_shapefile_requests:
  "requests (snd (get_shapefile net (Some d) ignore_cache s)) = requests s \<or>
   requests (snd (get_shapefile net (Some d) ignore_cache s)) = requests s @ [shapefile_url d]"
  using get_shapefile_cases [of net d ignore_cache s]
  by (auto simp add: Let_def split: option.splits if_splits sum.splits)

text \<open>
  When the cache root is an absolute path in normal form, the \<^verbatim>\<open>zip\<close> directory under it
  exists or can be created, nothing is at the cache path and the status is not one that
  \<^verbatim>\<open>raise_for_status\<close> raises for, the body is written and the path returned.
\<close>

lemma get_shapefile_writes:
  assumes cs: "list_all valid_component cs" "cache s = abs_path cs"
    and dc: "dirs_creatable (fs s) (cs @ [''zip''])"
    and none: "fs s (shapefile_path (cache s) d) = None"
    and r: "net (shapefile_url d) = Some r" "\<not> (400 \<le> status_code r \<and> status_code r < 600)"
  shows "\<exists>f'. get_shapefile net (Some d) ignore_cache s =
           (Inr (shapefile_path (cache s) d), s\<lparr>requests := requests s @ [shapefile_url d], fs := f'\<rparr>) \<and>
         f' (shapefile_path (cache s) d) = Some (File (content r))"
proof -
  let ?path = "shapefile_path (cache s) d" and ?dir = "abs_path (cs @ [''zip''])"
  have vz: "list_all valid_component (cs @ [''zip''])"
    using cs(1) by (simp add: valid_component_def)
  have dn: "os_path_dirname ?path = ?dir"
    unfolding cs(2) using cs(1) by (rule shapefile_dirname_components)
  have longer: "length ?dir < length ?path"
    unfolding cs(2) shapefile_path_components [OF cs(1)]
    using basename_shapefile_url_component [of d]
    by (intro abs_path_longer) (simp add: valid_component_def)
  obtain f2 where f2:
    "(if os_path_exists (fs s) ?dir then (Inr (), fs s) else os_makedirs (fs s) ?dir) = (Inr (), f2)"
    "f2 ?dir = Some Dir" "f2 ?path = None"
  proof (cases "fs s ?dir = None")
    case True
    from os_makedirs_creates [OF vz dc True] obtain f' where
      "os_makedirs (fs s) ?dir = (Inr (), f')" "f' ?dir = Some Dir"
      "\<forall>q. length ?dir < length q \<longrightarrow> f' q = fs s q"
      by blast
    with True longer none that show ?thesis
      by (simp add: os_path_exists_def)
  next
    case False
    with dirs_creatable_self [OF dc] have "fs s ?dir = Some Dir"
      by (simp add: not_file_directory)
    with False none that show ?thesis
      by (simp add: os_path_exists_def)
  qed
  have w: "open_wb f2 ?path (content r) = Inr (f2(?path \<mapsto> File (content r)))"
    using f2(2,3) by (simp add: open_wb_writes dn)
  have cond: "(400 \<le> status_code r \<and> status_code r < 600) = False"
    using r(2) by simp
  have "get_shapefile net (Some d) ignore_cache s =
      (let made = (if os_path_exists (fs s) (os_path_dirname ?path) then (Inr (), fs s)
                   else os_makedirs (fs s) (os_path_dirname ?path))
       in case fst made of
            Inl e \<Rightarrow> (Inl e, s\<lparr>requests := requests s @ [shapefile_url d], fs := snd made\<rparr>)
          | Inr u \<Rightarrow>
              (case open_wb (snd made) ?path (content r) of
                 Inl e \<Rightarrow> (Inl e, s\<lparr>requests := requests s @ [shapefile_url d], fs := snd made\<rparr>)
               | Inr f3 \<Rightarrow> (Inr ?path, s\<lparr>requests := requests s @ [shapefile_url d], fs := f3\<rparr>)))"
    using none r(1) by (simp add: get_shapefile_miss cond split del: if_split)
  also have "\<dots> =
      (Inr ?path, s\<lparr>requests := requests s @ [shapefile_url d], fs := f2(?path \<mapsto> File (content r))\<rparr>)"
    unfolding dn f2(1) by (simp add: w)
  finally have "get_shapefile net (Some d) ignore_cache s =
      (Inr ?path, s\<lparr>requests := requests s @ [shapefile_url d], fs := f2(?path \<mapsto> File (content r))\<rparr>) \<and>
      (f2(?path \<mapsto> File (content r))) ?path = Some (File (content r))"
    by simp
  then show ?thesis by (rule exI [where x = "f2(?path \<mapsto> File (content r))"])
qed

lemma get_latest_date_cache:
  "cache (snd (get_latest_date net fromstring ignore_cache s)) = cache s"
  by (simp add: get_latest_date_def requests_get_def Let_def split: option.splits sum.splits)

lemma get_latest_date_memo_hit:
  "latest_date s = Some d \<Longrightarrow> get_latest_date net fromstring False s = (Inr d, s)"
  by (simp add: get_latest_date_def)

lemma get_latest_date_sets_memo:
  "get_latest_date net fromstring ignore_cache s = (Inr d, s1) \<Longrightarrow> latest_date s1 = Some d"
  by (auto simp add: get_latest_date_def requests_get_def Let_def split: option.splits sum.splits if_splits)

lemma get_latest_date_fetch:
  "latest_date s = None \<or> ignore_cache \<Longrightarrow>
   get_latest_date net fromstring ignore_cache s =
     (case net total_xml_url of
        None \<Rightarrow> (Inl ConnectionError, s\<lparr>requests := requests s @ [total_xml_url]\<rparr>)
      | Some r \<Rightarrow>
          (case fromstring (text_body r) of
             None \<Rightarrow> (Inl ParseError, s\<lparr>requests := requests s @ [total_xml_url]\<rparr>)
           | Some xml \<Rightarrow>
               (case find_element xml ''week'' of
                  None \<Rightarrow> (Inl AttributeError, s\<lparr>requests := requests s @ [total_xml_url]\<rparr>)
                | Some week \<Rightarrow>
                    (case get_attrib week ''date'' of
                       None \<Rightarrow> (Inl TypeError, s\<lparr>requests := requests s @ [total_xml_url]\<rparr>)
                     | Some date \<Rightarrow>
                         (case strptime_Ymd date of
                            Inl e \<Rightarrow> (Inl e, s\<lparr>requests := requests s @ [total_xml_url]\<rparr>)
                          | Inr d \<Rightarrow> (Inr d, s\<lparr>requests := requests s @ [total_xml_url], latest_date := Some d\<rparr>))))))"
  by (auto simp add: get_latest_date_def requests_get_def Let_def total_xml_url_def split: option.splits sum.splits)

lemma get_latest_date_fetch_requests:
  "latest_date s = None \<or> ignore_cache \<Longrightarrow>
   requests (snd (get_latest_date net fromstring ignore_cache s)) = requests s @ [total_xml_url]"
  by (simp add: get_latest_date_fetch split: option.splits sum.splits)

lemma find_first_filter:
  "filter P xs = x # rest \<Longrightarrow> List.find P xs = Some x"
  by (induction xs) (auto split: if_splits)

lemma raster_nothing: "raster shapefile outfile s = ((), s)"
  by (simp add: raster_def get_us_def)

lemma render_eq:
  "render net date outfile s =
     (case get_shapefile net date False s of (Inl e, s1) \<Rightarrow> (Inl e, s1) | (Inr p, s1) \<Rightarrow> (Inr (), s1))"
  by (simp add: render_def raster_nothing split: prod.splits sum.splits)

lemma render_cache: "cache (snd (render net date outfile s)) = cache s"
  using get_shapefile_self [of net date False s]
  by (cases "get_shapefile net date False s"; cases "fst (get_shapefile net date False s)")
     (simp_all add: render_eq)

section \<open>The scenario evaluated\<close>

lemma example_valid: "valid_datetime example_date"
  by (simp add: valid_datetime_def example_date_def days_in_month_def)

lemma example_year: "1000 \<le> year example_date"
  by (simp add: example_date_def)

lemma example_ymd8: "ymd8 example_date = ''20140624''"
  by (simp add: ymd8_def example_date_def pad4_def pad2_def digit_char_def char_of_eq_iff)

lemma example_url:
  "shapefile_url example_date = ''http://droughtmonitor.unl.edu/data/shapefiles_m/USDM_20140624_M.zip''"
  using example_valid example_year
  by (simp add: shapefile_url_four_digits valid_datetime_def example_ymd8)

lemma example_path:
  "shapefile_path ''/home/u/.cache'' example_date = ''/home/u/.cache/zip/USDM_20140624_M.zip''"
  by (simp add: shapefile_path_eq basename_shapefile_url [OF example_valid example_year] example_ymd8
      as_directory_def)

lemma example_strptime: "strptime_Ymd ''20140624'' = Inr example_date"
  using strptime_ymd8 [OF example_valid] by (simp add: example_ymd8)

lemma example_components:
  "list_all valid_component [''home'', ''u'', ''.cache'']"
  "abs_path [''home'', ''u'', ''.cache''] = ''/home/u/.cache''"
  by (simp_all add: valid_component_def abs_path_def)

lemma example_creatable: "dirs_creatable example_dirs ([''home'', ''u'', ''.cache''] @ [''zip''])"
  by (simp add: dirs_creatable_def example_dirs_def abs_path_def is_file_def upt_rec)

lemma example_fetch:
  assumes "\<not> (400 \<le> status \<and> status < 600)"
  shows "\<exists>f'. get_shapefile (example_net status) (Some example_date) ignore_cache example_state =
           (Inr ''/home/u/.cache/zip/USDM_20140624_M.zip'',
            example_state\<lparr>requests := [''http://droughtmonitor.unl.edu/data/shapefiles_m/USDM_20140624_M.zip''],
              fs := f'\<rparr>) \<and>
         f' ''/home/u/.cache/zip/USDM_20140624_M.zip'' = Some (File [80, 75, 3, 4])"
proof -
  have c: "cache example_state = abs_path [''home'', ''u'', ''.cache'']"
    by (simp add: example_state_def example_components)
  have p: "shapefile_path (cache example_state) example_date = ''/home/u/.cache/zip/USDM_20140624_M.zip''"
    by (simp add: example_state_def example_path)
  have dc: "dirs_creatable (fs example_state) ([''home'', ''u'', ''.cache''] @ [''zip''])"
    using example_creatable by (simp add: example_state_def)
  have none: "fs example_state (shapefile_path (cache example_state) example_date) = None"
    unfolding p by (simp add: example_state_def example_dirs_def)
  have r: "example_net status (shapefile_url example_date) =
      Some \<lparr>status_code = status, content = [80, 75, 3, 4], text_body = []\<rparr>"
    by (simp add: example_net_def example_url)
  have st: "\<not> (400 \<le> status_code \<lparr>status_code = status, content = [80, 75, 3, 4], text_body = []\<rparr> \<and>
      status_code \<lparr>status_code = status, content = [80, 75, 3, 4], text_body = []\<rparr> < 600)"
    using assms by simp
  from get_shapefile_writes [of "[''home'', ''u'', ''.cache'']" example_state example_date "example_net status"
      "\<lparr>status_code = status, content = [80, 75, 3, 4], text_body = []\<rparr>" ignore_cache,
      OF example_components(1) c dc none r st]
  show ?thesis
    unfolding p example_url by (simp add: example_state_def)
qed

lemma example_fetch_result:
  assumes "\<not> (400 \<le> status \<and> status < 600)"
  shows "fst (get_shapefile (example_net status) (Some example_date) ignore_cache example_state) =
           Inr ''/home/u/.cache/zip/USDM_20140624_M.zip''"
    and "requests (snd (get_shapefile (example_net status) (Some example_date) ignore_cache example_state)) =
           [''http://droughtmonitor.unl.edu/data/shapefiles_m/USDM_20140624_M.zip'']"
    and "fs (snd (get_shapefile (example_net status) (Some example_date) ignore_cache example_state))
           ''/home/u/.cache/zip/USDM_20140624_M.zip'' = Some (File [80, 75, 3, 4])"
    and "cache (snd (get_shapefile (example_net status) (Some example_date) ignore_cache example_state)) =
           ''/home/u/.cache''"
  using example_fetch [OF assms, of ignore_cache] by (auto simp add: example_state_def)


lemma example_early:
  "valid_datetime example_early_date"
  "ymd8 example_early_date = ''00140624''"
  "shapefile_url example_early_date = ''http://droughtmonitor.unl.edu/data/shapefiles_m/USDM_140624_M.zip''"
  by (simp_all add: valid_datetime_def example_early_date_def days_in_month_def ymd8_def pad4_def
      pad2_def shapefile_url_eq str_nat_14 digit_char_def char_of_eq_iff)

section \<open>Properties of the methods\<close>

text \<open>
  C6. When something exists at the cache path of the date and \<^verbatim>\<open>ignore_cache\<close> is false,
  \<^verbatim>\<open>get_shapefile\<close> returns that path and leaves the whole state as it was: no request is
  recorded and the filesystem is not written. What exists there is not looked at: \<open>n\<close> is
  any node, a file of any content.
\<close>

theorem get_shapefile_cache_hit:
  assumes "fs s (shapefile_path (cache s) d) = Some n"
  shows "get_shapefile net (Some d) False s = (Inr (shapefile_path (cache s) d), s)"
  using assms by (simp add: get_shapefile_hit)

theorem get_shapefile_cache_hit_witness:
  "fs example_cached (shapefile_path (cache example_cached) example_date) = Some (File []) \<and>
   get_shapefile (example_net 200) (Some example_date) False example_cached =
     (Inr ''/home/u/.cache/zip/USDM_20140624_M.zip'', example_cached)"
proof -
  have h: "fs example_cached (shapefile_path (cache example_cached) example_date) = Some (File [])"
    by (simp add: example_cached_def example_path)
  show ?thesis
    using h get_shapefile_cache_hit [of example_cached example_date "File []" "example_net 200", OF h]
    by (simp add: example_cached_def example_path)
qed

text \<open>
  C2. When nothing exists at the cache path of the date and the remote side answers with a
  client or server error (a status from 400 to 599, the statuses for which
  \<^verbatim>\<open>raise_for_status\<close> raises), \<^verbatim>\<open>get_shapefile\<close> fails with \<open>HTTPError\<close>; the filesystem
  is unchanged, and still has nothing at the cache path.
\<close>

theorem get_shapefile_http_error:
  assumes "fs s (shapefile_path (cache s) d) = None"
    and "net (shapefile_url d) = Some r"
    and "400 \<le> status_code r" and "status_code r < 600"
  shows "get_shapefile net (Some d) ignore_cache s =
           (Inl HTTPError, s\<lparr>requests := requests s @ [shapefile_url d]\<rparr>) \<and>
         fs (snd (get_shapefile net (Some d) ignore_cache s)) = fs s \<and>
         fs (snd (get_shapefile net (Some d) ignore_cache s)) (shapefile_path (cache s) d) = None"
  using assms by (simp add: get_shapefile_miss)

theorem get_shapefile_http_error_witness:
  "fs example_state (shapefile_path (cache example_state) example_date) = None \<and>
   example_net 404 (shapefile_url example_date) = Some \<lparr>status_code = 404, content = [80, 75, 3, 4], text_body = []\<rparr> \<and>
   get_shapefile (example_net 404) (Some example_date) False example_state =
     (Inl HTTPError,
      example_state\<lparr>requests := [''http://droughtmonitor.unl.edu/data/shapefiles_m/USDM_20140624_M.zip'']\<rparr>) \<and>
   fs (snd (get_shapefile (example_net 404) (Some example_date) False example_state))
     ''/home/u/.cache/zip/USDM_20140624_M.zip'' = None"
proof -
  have h1: "fs example_state (shapefile_path (cache example_state) example_date) = None"
    by (simp add: example_state_def example_path example_dirs_def)
  have h2: "example_net 404 (shapefile_url example_date) =
      Some \<lparr>status_code = 404, content = [80, 75, 3, 4], text_body = []\<rparr>"
    by (simp add: example_net_def example_url)
  show ?thesis
    using h1 h2 get_shapefile_http_error [of example_state example_date "example_net 404" _ False, OF h1 h2]
    by (simp add: example_state_def example_path example_url)
qed

text \<open>
  A status that is not a success and not an error either is no failure for
  \<^verbatim>\<open>raise_for_status\<close>: on 304 the body is written to the cache and the path returned.
\<close>

theorem get_shapefile_not_modified_counterexample:
  "fs example_state ''/home/u/.cache/zip/USDM_20140624_M.zip'' = None \<and>
   example_net 304 ''http://droughtmonitor.unl.edu/data/shapefiles_m/USDM_20140624_M.zip'' =
     Some \<lparr>status_code = 304, content = [80, 75, 3, 4], text_body = []\<rparr> \<and>
   fst (get_shapefile (example_net 304) (Some example_date) False example_state) =
     Inr ''/home/u/.cache/zip/USDM_20140624_M.zip'' \<and>
   fs (snd (get_shapefile (example_net 304) (Some example_date) False example_state))
     ''/home/u/.cache/zip/USDM_20140624_M.zip'' = Some (File [80, 75, 3, 4])"
  using example_fetch_result(1,3) [of 304 False]
  by (simp add: example_state_def example_dirs_def example_net_def)




lemma ymd8_digits: "valid_datetime d \<Longrightarrow> length (ymd8 d) = 8 \<and> list_all is_digit (ymd8 d)"
proof -
  assume v: "valid_datetime d"
  then have "year d \<le> 9999" "month d \<le> 12" "day d \<le> 31"
    using days_in_month_le [of "year d" "month d"] by (auto simp add: valid_datetime_def)
  then have "year d div 100 div 10 < 10" "month d div 10 < 10" "day d div 10 < 10" by simp_all
  then show ?thesis
    by (simp add: ymd8_def pad4_def pad2_def is_digit_digit_char)
qed

text \<open>
  C8. For a date from the year 1000 on, the URL of the date is the archive endpoint with
  the eight digits of the date between \<^verbatim>\<open>USDM_\<close> and \<^verbatim>\<open>_M.zip\<close>; those are eight decimal
  digits that parse back to the date. \<^verbatim>\<open>get_shapefile\<close> requests nothing or that URL, and
  a path it returns is \<^verbatim>\<open>os.path.join\<close> of the cache root, \<^verbatim>\<open>zip\<close> and the basename of the
  URL, that is the root, \<^verbatim>\<open>zip/\<close> and \<^verbatim>\<open>USDM_<digits>_M.zip\<close>.
\<close>

theorem get_shapefile_url_and_path:
  assumes "valid_datetime d" and "1000 \<le> year d"
  shows "shapefile_url d = ''http://droughtmonitor.unl.edu/data/shapefiles_m/USDM_'' @ ymd8 d @ ''_M.zip'' \<and>
         length (ymd8 d) = 8 \<and> list_all is_digit (ymd8 d) \<and> strptime_Ymd (ymd8 d) = Inr d \<and>
         (requests (snd (get_shapefile net (Some d) ignore_cache s)) = requests s \<or>
          requests (snd (get_shapefile net (Some d) ignore_cache s)) = requests s @ [shapefile_url d]) \<and>
         os_path_basename (shapefile_url d) = ''USDM_'' @ ymd8 d @ ''_M.zip'' \<and>
         (\<forall>p. fst (get_shapefile net (Some d) ignore_cache s) = Inr p \<longrightarrow>
              p = os_path_join (cache s) [''zip'', os_path_basename (shapefile_url d)] \<and>
              p = as_directory (cache s) @ ''zip/'' @ ''USDM_'' @ ymd8 d @ ''_M.zip'')"
proof -
  from assms(1) have y: "year d \<le> 9999" by (simp add: valid_datetime_def)
  have "p = os_path_join (cache s) [''zip'', os_path_basename (shapefile_url d)] \<and>
        p = as_directory (cache s) @ ''zip/'' @ ''USDM_'' @ ymd8 d @ ''_M.zip''"
    if "fst (get_shapefile net (Some d) ignore_cache s) = Inr p" for p
  proof -
    from get_shapefile_returns [OF that] have p: "p = shapefile_path (cache s) d" by simp
    show ?thesis
      unfolding p using shapefile_path_eq [of "cache s" d] basename_shapefile_url [OF assms]
      by (simp add: shapefile_path_def)
  qed
  then show ?thesis
    using shapefile_url_four_digits [OF assms(2) y] ymd8_digits [OF assms(1)] strptime_ymd8 [OF assms(1)]
      get_shapefile_requests [of net d ignore_cache s] basename_shapefile_url [OF assms]
    by blast
qed

theorem get_shapefile_url_and_path_witness:
  "valid_datetime example_date \<and> 1000 \<le> year example_date \<and>
   shapefile_url example_date = ''http://droughtmonitor.unl.edu/data/shapefiles_m/USDM_20140624_M.zip'' \<and>
   requests (snd (get_shapefile (example_net 200) (Some example_date) False example_state)) =
     [''http://droughtmonitor.unl.edu/data/shapefiles_m/USDM_20140624_M.zip''] \<and>
   fst (get_shapefile (example_net 200) (Some example_date) False example_state) =
     Inr ''/home/u/.cache/zip/USDM_20140624_M.zip''"
  using example_valid example_year example_fetch_result(1,2) [of 200 False]
    get_shapefile_url_and_path [OF example_valid example_year, of "example_net 200" False example_state]
  by (simp add: example_url)

text \<open>
  The year 14 is a year of \<^verbatim>\<open>datetime\<close>, and \<^verbatim>\<open>%Y\<close> writes it with two digits: the URL
  requested for 24 June of that year has six digits, not the eight of the date.
\<close>

theorem get_shapefile_early_year_counterexample:
  "valid_datetime example_early_date \<and>
   ymd8 example_early_date = ''00140624'' \<and>
   requests (snd (get_shapefile (example_net 200) (Some example_early_date) False example_state)) =
     [''http://droughtmonitor.unl.edu/data/shapefiles_m/USDM_140624_M.zip'']"
proof -
  have p: "shapefile_path (cache example_state) example_early_date = ''/home/u/.cache/zip/USDM_140624_M.zip''"
    by (simp add: shapefile_path_def example_early(3) os_path_basename_def os_path_join_def
        join_step_def example_state_def)
  have "fs example_state (shapefile_path (cache example_state) example_early_date) = None \<or> False"
    unfolding p by (simp add: example_state_def example_dirs_def)
  then have "get_shapefile (example_net 200) (Some example_early_date) False example_state =
      (Inl ConnectionError,
       example_state\<lparr>requests := requests example_state @
         [''http://droughtmonitor.unl.edu/data/shapefiles_m/USDM_140624_M.zip'']\<rparr>)"
    by (simp add: get_shapefile_miss example_early(3) example_net_def)
  then show ?thesis
    by (simp add: example_early example_state_def)
qed



text \<open>
  C10. \<^verbatim>\<open>__init__\<close> sets the cache root to \<^verbatim>\<open>realpath\<close> of its argument, of \<^verbatim>\<open>.cache\<close> when
  there is none; no method changes it; and every path \<^verbatim>\<open>get_shapefile\<close> returns lies
  strictly under it.
\<close>

theorem cache_root_fixed:
  "cache (init realpath cache_arg w) = realpath (case cache_arg of None \<Rightarrow> ''.cache'' | Some c \<Rightarrow> c) \<and>
   cache (snd (get_latest_date net fromstring ignore_cache s)) = cache s \<and>
   cache (snd (get_shapefile net date ignore_cache s)) = cache s \<and>
   cache (snd (get_us s)) = cache s \<and>
   cache (snd (project_shapefile shapefile s)) = cache s \<and>
   cache (snd (raster shapefile outfile s)) = cache s \<and>
   cache (snd (render net date outfile s)) = cache s \<and>
   (\<forall>p. fst (get_shapefile net date ignore_cache s) = Inr p \<longrightarrow> lies_under (cache s) p)"
proof -
  have "lies_under (cache s) p" if "fst (get_shapefile net date ignore_cache s) = Inr p" for p
    using get_shapefile_returns [OF that] shapefile_path_under by auto
  then show ?thesis
    by (simp add: init_def get_latest_date_cache get_shapefile_self get_us_def project_shapefile_def
        raster_nothing render_cache)
qed

theorem cache_root_fixed_witness:
  "cache (init (\<lambda>p. ''/home/u/'' @ p) None \<lparr>fs = Map.empty, requests = []\<rparr>) = ''/home/u/.cache'' \<and>
   fst (get_shapefile (example_net 200) (Some example_date) False example_state) =
     Inr ''/home/u/.cache/zip/USDM_20140624_M.zip'' \<and>
   lies_under ''/home/u/.cache'' ''/home/u/.cache/zip/USDM_20140624_M.zip'' \<and>
   cache (snd (get_shapefile (example_net 200) (Some example_date) False example_state)) = ''/home/u/.cache''"
proof -
  have r: "fst (get_shapefile (example_net 200) (Some example_date) False example_state) =
      Inr ''/home/u/.cache/zip/USDM_20140624_M.zip''"
    by (rule example_fetch_result(1)) simp
  have c: "cache example_state = ''/home/u/.cache''"
    by (simp add: example_state_def)
  show ?thesis
    using r c cache_root_fixed [of "\<lambda>p. ''/home/u/'' @ p" None "\<lparr>fs = Map.empty, requests = []\<rparr>"
        "example_net 200" example_fromstring False example_state "Some example_date"]
    by simp
qed

lemma example_latest:
  "get_latest_date (example_net status) example_fromstring ignore_cache example_state =
     (Inr example_date, example_state\<lparr>requests := [total_xml_url], latest_date := Some example_date\<rparr>)"
  by (simp add: get_latest_date_fetch example_state_def example_net_def total_xml_url_def
      example_fromstring_def find_element_def get_attrib_def example_strptime)

text \<open>
  C5. After a call of \<^verbatim>\<open>get_latest_date\<close> has returned a date, a call without
  \<^verbatim>\<open>ignore_cache\<close> returns the same date and leaves the state, and so the list of
  requests, as it was, whatever the remote side would answer now. A call with
  \<^verbatim>\<open>ignore_cache\<close> makes one more request, whatever is memoized.
\<close>

theorem get_latest_date_memo:
  "(get_latest_date net1 fromstring1 ignore_cache s = (Inr d, s1) \<longrightarrow>
      get_latest_date net2 fromstring2 False s1 = (Inr d, s1)) \<and>
   requests (snd (get_latest_date net fromstring True s)) = requests s @ [total_xml_url]"
  using get_latest_date_sets_memo [of net1 fromstring1 ignore_cache s d s1]
    get_latest_date_memo_hit [of s1 d net2 fromstring2]
    get_latest_date_fetch_requests [of s True net fromstring]
  by blast

theorem get_latest_date_memo_witness:
  "get_latest_date (example_net 200) example_fromstring False example_state =
     (Inr example_date, example_state\<lparr>requests := [total_xml_url], latest_date := Some example_date\<rparr>) \<and>
   get_latest_date (\<lambda>url. None) (\<lambda>t. None) False
       (example_state\<lparr>requests := [total_xml_url], latest_date := Some example_date\<rparr>) =
     (Inr example_date, example_state\<lparr>requests := [total_xml_url], latest_date := Some example_date\<rparr>) \<and>
   requests (snd (get_latest_date (example_net 200) example_fromstring True
       (example_state\<lparr>requests := [total_xml_url], latest_date := Some example_date\<rparr>))) =
     [total_xml_url, total_xml_url]"
  using example_latest [of 200 False]
    get_latest_date_memo [of "example_net 200" example_fromstring False example_state example_date
      "example_state\<lparr>requests := [total_xml_url], latest_date := Some example_date\<rparr>"
      "\<lambda>url. None" "\<lambda>t. None" "example_net 200" example_fromstring]
    get_latest_date_memo [of _ _ _
      "example_state\<lparr>requests := [total_xml_url], latest_date := Some example_date\<rparr>"
      _ _ _ _ "example_net 200" example_fromstring]
  by (simp add: example_state_def)

text \<open>
  C4. On a call that fetches the document (nothing memoized, or \<^verbatim>\<open>ignore_cache\<close>), when
  the document parses and \<open>week\<close> is the first child of the root tagged \<^verbatim>\<open>week\<close>, the
  result is what \<^verbatim>\<open>strptime(_, '%Y%m%d')\<close> makes of the value \<open>ds\<close> that the attributes of
  that week give for \<^verbatim>\<open>date\<close>; when \<open>ds\<close> is the eight digits of a date, the date is
  returned and memoized.
\<close>

theorem get_latest_date_first_week:
  assumes "latest_date s = None \<or> ignore_cache"
    and "net total_xml_url = Some r"
    and "fromstring (text_body r) = Some xml"
    and "filter (\<lambda>c. tag c = ''week'') (children xml) = week # others"
    and "map_of (attrib week) ''date'' = Some ds"
  shows "fst (get_latest_date net fromstring ignore_cache s) = strptime_Ymd ds \<and>
         (\<forall>d. valid_datetime d \<and> ds = ymd8 d \<longrightarrow>
            get_latest_date net fromstring ignore_cache s =
              (Inr d, s\<lparr>requests := requests s @ [total_xml_url], latest_date := Some d\<rparr>))"
proof -
  from assms(4) have w: "find_element xml ''week'' = Some week"
    unfolding find_element_def by (rule find_first_filter)
  from assms(5) have a: "get_attrib week ''date'' = Some ds"
    by (simp add: get_attrib_def)
  have g: "get_latest_date net fromstring ignore_cache s =
      (case strptime_Ymd ds of
         Inl e \<Rightarrow> (Inl e, s\<lparr>requests := requests s @ [total_xml_url]\<rparr>)
       | Inr d \<Rightarrow> (Inr d, s\<lparr>requests := requests s @ [total_xml_url], latest_date := Some d\<rparr>))"
    using assms(2,3) a w by (simp add: get_latest_date_fetch [OF assms(1)])
  have "fst (get_latest_date net fromstring ignore_cache s) = strptime_Ymd ds"
    unfolding g by (cases "strptime_Ymd ds") simp_all
  moreover have "get_latest_date net fromstring ignore_cache s =
      (Inr d, s\<lparr>requests := requests s @ [total_xml_url], latest_date := Some d\<rparr>)"
    if "valid_datetime d \<and> ds = ymd8 d" for d
    unfolding g using that strptime_ymd8 [of d] by simp
  ultimately show ?thesis by blast
qed

theorem get_latest_date_first_week_witness:
  "latest_date example_state = None \<and>
   example_listing_net total_xml_url = Some \<lparr>status_code = 200, content = [], text_body = example_listing\<rparr> \<and>
   example_listing_fromstring example_listing = Some example_listing_root \<and>
   filter (\<lambda>c. tag c = ''week'') (children example_listing_root) =
     [Element ''week'' [(''name'', ''w26''), (''date'', ''20140624'')] [],
      Element ''week'' [(''date'', ''20140617'')] []] \<and>
   map_of (attrib (Element ''week'' [(''name'', ''w26''), (''date'', ''20140624'')] [])) ''date'' =
     Some ''20140624'' \<and>
   valid_datetime example_date \<and> ''20140624'' = ymd8 example_date \<and>
   get_latest_date example_listing_net example_listing_fromstring False example_state =
     (Inr \<lparr>year = 2014, month = 6, day = 24\<rparr>,
      example_state\<lparr>requests := [total_xml_url], latest_date := Some \<lparr>year = 2014, month = 6, day = 24\<rparr>\<rparr>)"
proof -
  let ?week = "Element ''week'' [(''name'', ''w26''), (''date'', ''20140624'')] []"
  have h1: "latest_date example_state = None \<or> False"
    by (simp add: example_state_def)
  have h2: "example_listing_net total_xml_url =
      Some \<lparr>status_code = 200, content = [], text_body = example_listing\<rparr>"
    by (simp add: example_listing_net_def total_xml_url_def)
  have h3: "example_listing_fromstring (text_body \<lparr>status_code = 200, content = [], text_body = example_listing\<rparr>) =
      Some example_listing_root"
    by (simp add: example_listing_fromstring_def)
  have h4: "filter (\<lambda>c. tag c = ''week'') (children example_listing_root) =
      ?week # [Element ''week'' [(''date'', ''20140617'')] []]"
    by (simp add: example_listing_root_def)
  have h5: "map_of (attrib ?week) ''date'' = Some ''20140624''"
    by simp
  have v: "valid_datetime example_date \<and> ''20140624'' = ymd8 example_date"
    by (simp add: example_valid example_ymd8)
  from get_latest_date_first_week [of example_state False example_listing_net
      "\<lparr>status_code = 200, content = [], text_body = example_listing\<rparr>" example_listing_fromstring
      example_listing_root ?week "[Element ''week'' [(''date'', ''20140617'')] []]" "''20140624''",
      OF h1 h2 h3 h4 h5] v
  have "get_latest_date example_listing_net example_listing_fromstring False example_state =
      (Inr example_date,
       example_state\<lparr>requests := requests example_state @ [total_xml_url], latest_date := Some example_date\<rparr>)"
    by blast
  then show ?thesis
    using h1 h2 h3 h4 h5 v by (simp add: example_date_def example_state_def)
qed

lemma get_latest_date_failures:
  assumes "latest_date s = None \<or> ignore_cache"
  shows "net total_xml_url = None \<Longrightarrow>
           fst (get_latest_date net fromstring ignore_cache s) = Inl ConnectionError"
    and "net total_xml_url = Some r \<Longrightarrow> fromstring (text_body r) = None \<Longrightarrow>
           fst (get_latest_date net fromstring ignore_cache s) = Inl ParseError"
    and "net total_xml_url = Some r \<Longrightarrow> fromstring (text_body r) = Some xml \<Longrightarrow>
         find_element xml ''week'' = None \<Longrightarrow>
           fst (get_latest_date net fromstring ignore_cache s) = Inl AttributeError"
  by (simp_all add: get_latest_date_fetch [OF assms])

text \<open>
  C3. \<^verbatim>\<open>get_latest_date\<close> fails when no response arrives, when the body does not parse and
  when the root has no \<^verbatim>\<open>week\<close> child. It never calls \<^verbatim>\<open>raise_for_status\<close>, as
  \<^verbatim>\<open>get_shapefile\<close> does: a response with status 500 whose body is the metadata document
  is parsed like any other, and the call returns 24 June 2014 and memoizes it.
\<close>

theorem get_latest_date_ignores_status:
  "example_net 500 total_xml_url = Some \<lparr>status_code = 500, content = [], text_body = example_document\<rparr> \<and>
   raise_for_status \<lparr>status_code = 500, content = [], text_body = example_document\<rparr> = Inl HTTPError \<and>
   get_latest_date (example_net 500) example_fromstring False example_state =
     (Inr \<lparr>year = 2014, month = 6, day = 24\<rparr>,
      example_state\<lparr>requests := [total_xml_url], latest_date := Some \<lparr>year = 2014, month = 6, day = 24\<rparr>\<rparr>)"
  using example_latest [of 500 False]
  by (simp add: example_net_def total_xml_url_def raise_for_status_def example_date_def)

text \<open>
  \<^verbatim>\<open>raster\<close> does nothing, so after \<^verbatim>\<open>render\<close> the state is as \<^verbatim>\<open>get_shapefile\<close> left it:
  nothing is written to the output file.
\<close>

lemma render_writes_nothing_more:
  "snd (render net date outfile s) = snd (get_shapefile net date False s)"
  by (cases "get_shapefile net date False s"; cases "fst (get_shapefile net date False s)")
     (simp_all add: render_eq)

text \<open>
  C1. \<^verbatim>\<open>render\<close> called without a date does not call \<^verbatim>\<open>get_latest_date\<close>: it passes
  \<^verbatim>\<open>None\<close> to \<^verbatim>\<open>get_shapefile\<close>, which raises \<^verbatim>\<open>AttributeError\<close> on \<^verbatim>\<open>date.strftime\<close>.
  The state is unchanged: no request is made and no file is written.
\<close>

theorem render_without_date:
  "render net None outfile s = (Inl AttributeError, s)"
  by (simp add: render_def get_shapefile_none)

end
